theory Spec2Isabelle
  imports Main "HOL-Library.AList" "HOL-Library.List_Lexorder" "HOL-Library.Char_ord"
begin

section \<open>Data model\<close>

text \<open>
  The embedding follows \<^verbatim>\<open>src/nix/command.cc\<close>. Paths on disk and store paths are strings;
  store paths are compared in the lexicographic order of their text, which is the total
  order a \<^verbatim>\<open>StorePathSet\<close> iterates in.
\<close>

type_synonym Path = string
type_synonym StorePath = string
type_synonym Installable = string

text \<open>
  The exceptions of the source are \<^verbatim>\<open>UsageError\<close> and \<^verbatim>\<open>Error\<close>, each with its message.
  \<^verbatim>\<open>ResolutionError\<close> and \<^verbatim>\<open>StoreError\<close> are raised only by collaborators whose code
  is outside \<^verbatim>\<open>command.cc\<close>.
\<close>

datatype error =
    UsageError string
  | Error string
  | ResolutionError string
  | StoreError string

datatype Realise = Nothing | DryRun | Full

datatype OperateOn = Output | Derivation

text \<open>
  Modelled from the spec: the declaration of \<^verbatim>\<open>Buildable\<close> is not in \<^verbatim>\<open>command.cc\<close>.
  A buildable maps output names to store paths; \<^verbatim>\<open>updateProfile\<close> iterates over the
  entries of \<^verbatim>\<open>outputs\<close> and reads the second component of each.
\<close>

record Buildable =
  outputs :: "(string \<times> StorePath) list"

type_synonym Buildables = "Buildable list"

text \<open>
  The store is an external collaborator. The fields are what \<^verbatim>\<open>command.cc\<close> consumes:
  whether the handle casts to \<^verbatim>\<open>LocalFSStore\<close>, how a store path prints, the valid paths
  and the reference edges (an edge list, so that an edge may occur repeatedly).
\<close>

record Store =
  localFS :: bool
  printStorePath :: "StorePath \<Rightarrow> Path"
  validPaths :: "StorePath list"
  references :: "(StorePath \<times> StorePath) list"

text \<open>Accesses to the store are logged, so that "the store is not queried" can be stated.\<close>

datatype event =
    OpenStore
  | QueryAllValidPaths
  | ToStorePaths
  | ComputeFSClosure

text \<open>
  The state holds the members of the command object (\<^verbatim>\<open>_store\<close>, \<^verbatim>\<open>profile\<close>,
  \<^verbatim>\<open>installables\<close>, \<^verbatim>\<open>all\<close>, \<^verbatim>\<open>recursive\<close>, \<^verbatim>\<open>realiseMode\<close>, \<^verbatim>\<open>operateOn\<close>) and the
  environment the command runs in: the store that \<^verbatim>\<open>openStore()\<close> yields, \<^verbatim>\<open>absPath\<close>,
  the evaluator that resolves one installable, the symbolic links on disk and the log.
\<close>

record State =
  store_member :: "Store option"
  profile :: "Path option"
  installables :: "Installable list"
  all :: bool
  recursive :: bool
  realiseMode :: Realise
  operateOn :: OperateOn
  openStore :: Store
  absPath :: "Path \<Rightarrow> Path"
  evaluator :: "Realise \<Rightarrow> OperateOn \<Rightarrow> Installable \<Rightarrow> error + StorePath list"
  links :: "(Path \<times> Path) list"
  trace :: "event list"

type_synonym 'a result = "(error + 'a) \<times> State"

section \<open>Store access\<close>

text \<open>\<^verbatim>\<open>StoreCommand::createStore\<close> and \<^verbatim>\<open>StoreCommand::getStore\<close> (lines 17 to 27).\<close>

definition createStore :: "State \<Rightarrow> Store \<times> State" where
  "createStore s = (openStore s, s\<lparr>trace := trace s @ [OpenStore]\<rparr>)"

definition getStore :: "State \<Rightarrow> Store \<times> State" where
  "getStore s =
     (case store_member s of
        None \<Rightarrow> (let (st, s1) = createStore s in (st, s1\<lparr>store_member := Some st\<rparr>))
      | Some st \<Rightarrow> (st, s))"

text \<open>
  Modelled from the spec: \<^verbatim>\<open>StorePathSet\<close> is declared outside \<^verbatim>\<open>command.cc\<close>. Store
  paths are totally ordered for deterministic iteration, so a set of them is the list of
  its distinct members in increasing order.
\<close>

definition StorePathSet :: "StorePath list \<Rightarrow> StorePath list" where
  "StorePathSet ps = sort (remdups ps)"

text \<open>
  Modelled from the spec: \<^verbatim>\<open>Store::queryAllValidPaths\<close> is not in \<^verbatim>\<open>command.cc\<close>. It
  returns the set of every valid path the store holds.
\<close>

definition queryAllValidPaths :: "Store \<Rightarrow> State \<Rightarrow> StorePath list \<times> State" where
  "queryAllValidPaths store s =
     (StorePathSet (validPaths store), s\<lparr>trace := trace s @ [QueryAllValidPaths]\<rparr>)"

section \<open>Installable resolution\<close>

text \<open>
  Keeps the first occurrence of every element, in order.
\<close>

fun firstOccurrences :: "'a list \<Rightarrow> 'a list \<Rightarrow> 'a list" where
  "firstOccurrences seen [] = []"
| "firstOccurrences seen (x # xs) =
     (if x \<in> set seen then firstOccurrences seen xs
      else x # firstOccurrences (x # seen) xs)"

fun resolveEach :: "(Installable \<Rightarrow> error + StorePath list) \<Rightarrow> Installable list
    \<Rightarrow> error + StorePath list" where
  "resolveEach f [] = Inr []"
| "resolveEach f (i # is) =
     (case f i of
        Inl e \<Rightarrow> Inl e
      | Inr ps \<Rightarrow> (case resolveEach f is of Inl e \<Rightarrow> Inl e | Inr qs \<Rightarrow> Inr (ps @ qs)))"

text \<open>
  Modelled from the spec: \<^verbatim>\<open>toStorePaths\<close> (the spec's \<^verbatim>\<open>resolveToPaths\<close>) is not in
  \<^verbatim>\<open>command.cc\<close>. Each installable is resolved independently under the realise mode and
  the selector, a failure of any of them fails the whole resolution, and the paths are
  flattened into a sequence of distinct store paths, insertion order preserved.
\<close>

definition toStorePaths :: "Store \<Rightarrow> Realise \<Rightarrow> OperateOn \<Rightarrow> Installable list
    \<Rightarrow> State \<Rightarrow> (StorePath list) result" where
  "toStorePaths store mode oper insts s =
     (case resolveEach (evaluator s mode oper) insts of
        Inl e \<Rightarrow> (Inl e, s\<lparr>trace := trace s @ [ToStorePaths]\<rparr>)
      | Inr ps \<Rightarrow> (Inr (firstOccurrences [] ps), s\<lparr>trace := trace s @ [ToStorePaths]\<rparr>))"

section \<open>Closure\<close>

definition successors :: "(StorePath \<times> StorePath) list \<Rightarrow> StorePath \<Rightarrow> StorePath list" where
  "successors refs p = map snd (filter (\<lambda>e. fst e = p) refs)"

text \<open>
  Modelled from the spec: \<^verbatim>\<open>Store::computeFSClosure\<close> is not in \<^verbatim>\<open>command.cc\<close>. The
  closure is a traversal of the reference graph from the roots that skips a path it has
  already visited, so that it ends on cycles and on repeated edges. The result lists the
  paths in the order of their visits.
\<close>

function traverse :: "(StorePath \<times> StorePath) list \<Rightarrow> StorePath list \<Rightarrow> StorePath list
    \<Rightarrow> StorePath list" where
  "traverse refs [] visited = visited"
| "traverse refs (p # todo) visited =
     (if p \<in> set visited then traverse refs todo visited
      else traverse refs (successors refs p @ todo) (visited @ [p]))"
  by pat_completeness auto

termination
proof (relation "measures [\<lambda>(refs, todo, visited). card ((set todo \<union> snd ` set refs) - set visited),
                           \<lambda>(refs, todo, visited). length todo]")
  show "wf (measures [\<lambda>(refs, todo, visited). card ((set todo \<union> snd ` set refs) - set visited),
                      \<lambda>(refs, todo, visited). length todo])"
    by simp
next
  fix refs :: "(StorePath \<times> StorePath) list" and p :: StorePath
    and todo visited :: "StorePath list"
  assume "p \<in> set visited"
  then have "(set (p # todo) \<union> snd ` set refs) - set visited =
             (set todo \<union> snd ` set refs) - set visited"
    by auto
  then show "((refs, todo, visited), (refs, p # todo, visited))
      \<in> measures [\<lambda>(refs, todo, visited). card ((set todo \<union> snd ` set refs) - set visited),
                   \<lambda>(refs, todo, visited). length todo]"
    by simp
next
  fix refs :: "(StorePath \<times> StorePath) list" and p :: StorePath
    and todo visited :: "StorePath list"
  assume new: "p \<notin> set visited"
  let ?old = "(set (p # todo) \<union> snd ` set refs) - set visited"
  let ?new = "(set (successors refs p @ todo) \<union> snd ` set refs) - set (visited @ [p])"
  have "set (successors refs p) \<subseteq> snd ` set refs"
    by (auto simp: successors_def)
  then have "?new \<subseteq> ?old"
    by auto
  moreover have "p \<in> ?old" "p \<notin> ?new"
    using new by auto
  ultimately have "?new \<subset> ?old"
    by blast
  moreover have "finite ?old"
    by simp
  ultimately have "card ?new < card ?old"
    by (rule psubset_card_mono [rotated])
  then show "((refs, successors refs p @ todo, visited @ [p]), (refs, p # todo, visited))
      \<in> measures [\<lambda>(refs, todo, visited). card ((set todo \<union> snd ` set refs) - set visited),
                   \<lambda>(refs, todo, visited). length todo]"
    by simp
qed

definition computeFSClosure :: "Store \<Rightarrow> StorePath list \<Rightarrow> StorePath list \<Rightarrow> State
    \<Rightarrow> StorePath list \<times> State" where
  "computeFSClosure store paths out s =
     (StorePathSet (traverse (references store) paths out),
      s\<lparr>trace := trace s @ [ComputeFSClosure]\<rparr>)"

section \<open>Commands on store paths\<close>

text \<open>
  \<^verbatim>\<open>StorePathsCommand::run(ref<Store>)\<close>, lines 78 to 103. \<^verbatim>\<open>storePaths\<close> computes the
  vector that line 102 hands to the command's own \<^verbatim>\<open>run\<close>, which is the parameter \<open>k\<close>.
\<close>

definition storePaths :: "Store \<Rightarrow> State \<Rightarrow> (StorePath list) result" where
  "storePaths store s =
     (if all s then
        (if installables s \<noteq> [] then (Inl (UsageError '''--all' does not expect arguments''), s)
         else (let (ps, s1) = queryAllValidPaths store s in (Inr ps, s1)))
      else
        (case toStorePaths store (realiseMode s) (operateOn s) (installables s) s of
           (Inl e, s1) \<Rightarrow> (Inl e, s1)
         | (Inr ps, s1) \<Rightarrow>
             (if recursive s1 then
                (let (closure, s2) = computeFSClosure store (StorePathSet ps) [] s1
                 in (Inr closure, s2))
              else (Inr ps, s1))))"

definition StorePathsCommand_run :: "(Store \<Rightarrow> StorePath list \<Rightarrow> State \<Rightarrow> unit result)
    \<Rightarrow> Store \<Rightarrow> State \<Rightarrow> unit result" where
  "StorePathsCommand_run k store s =
     (case storePaths store s of
        (Inl e, s1) \<Rightarrow> (Inl e, s1)
      | (Inr ps, s1) \<Rightarrow> k store ps s1)"

text \<open>\<^verbatim>\<open>StorePathCommand::run(ref<Store>)\<close>, lines 105 to 113.\<close>

definition StorePathCommand_run :: "(Store \<Rightarrow> StorePath \<Rightarrow> State \<Rightarrow> unit result)
    \<Rightarrow> Store \<Rightarrow> State \<Rightarrow> unit result" where
  "StorePathCommand_run k store s =
     (case toStorePaths store Nothing (operateOn s) (installables s) s of
        (Inl e, s1) \<Rightarrow> (Inl e, s1)
      | (Inr ps, s1) \<Rightarrow>
          (if length ps \<noteq> 1 then
             (Inl (UsageError ''this command requires exactly one store path''), s1)
           else k store (hd ps) s1))"

section \<open>Profiles\<close>

type_synonym Links = "(Path \<times> Path) list"

text \<open>
  Modelled from the spec: the filesystem primitives for symlink creation and atomic replace
  are outside \<^verbatim>\<open>command.cc\<close>. The symbolic links on disk are an association list from
  the path of a link to its content. Creating a link fails when the name is taken;
  renaming replaces the destination in one step and fails when the source is missing.
  A failure of either is a \<^verbatim>\<open>StoreError\<close>.
\<close>

datatype disk_op =
    CreateSymlink Path Path
  | RenameFile Path Path

fun applyOp :: "disk_op \<Rightarrow> Links \<Rightarrow> error + Links" where
  "applyOp (CreateSymlink target link) ls =
     (if map_of ls link \<noteq> None then Inl (StoreError ''file exists'')
      else Inr (AList.update link target ls))"
| "applyOp (RenameFile src dst) ls =
     (case map_of ls src of
        None \<Rightarrow> Inl (StoreError ''no such file'')
      | Some content \<Rightarrow> Inr (AList.update dst content (AList.delete src ls)))"

text \<open>
  A sequence of steps stops at the first failure; the links written so far stay.
\<close>

fun applyOps :: "disk_op list \<Rightarrow> Links \<Rightarrow> error option \<times> Links" where
  "applyOps [] ls = (None, ls)"
| "applyOps (step # steps) ls =
     (case applyOp step ls of
        Inl e \<Rightarrow> (Some e, ls)
      | Inr ls' \<Rightarrow> applyOps steps ls')"

text \<open>What a reader of the profile sees: the link, and the target behind the link.\<close>

definition readLink :: "Links \<Rightarrow> Path \<Rightarrow> Path option" where
  "readLink ls p = map_of ls p"

definition resolveProfile :: "Links \<Rightarrow> Path \<Rightarrow> Path option" where
  "resolveProfile ls p =
     (case readLink ls p of
        None \<Rightarrow> None
      | Some generation \<Rightarrow> readLink ls generation)"

subsection \<open>Names of generation links\<close>

definition digits :: string where
  "digits = ''0123456789''"

definition digitChar :: "nat \<Rightarrow> char" where
  "digitChar n = digits ! n"

fun position :: "char \<Rightarrow> string \<Rightarrow> nat option" where
  "position c [] = None"
| "position c (d # ds) = (if c = d then Some 0 else map_option Suc (position c ds))"

definition digitVal :: "char \<Rightarrow> nat option" where
  "digitVal c = position c digits"

function showNat :: "nat \<Rightarrow> string" where
  "showNat n = (if n < 10 then [digitChar n] else showNat (n div 10) @ [digitChar (n mod 10)])"
  by pat_completeness auto

termination
  by (relation "measure (\<lambda>n. n)") auto

fun parseDigits :: "nat \<Rightarrow> string \<Rightarrow> nat option" where
  "parseDigits acc [] = Some acc"
| "parseDigits acc (c # cs) =
     (case digitVal c of
        None \<Rightarrow> None
      | Some d \<Rightarrow> parseDigits (10 * acc + d) cs)"

definition parseNat :: "string \<Rightarrow> nat option" where
  "parseNat cs = (if cs = [] then None else parseDigits 0 cs)"

text \<open>
  Modelled from the spec: the naming of generation links is in \<^verbatim>\<open>profiles.cc\<close>, which is
  not under \<^verbatim>\<open>src/\<close>. The persisted layout is the profile \<^verbatim>\<open><name>\<close> and the family
  \<^verbatim>\<open><name>-<generationNumber>-link\<close>.
\<close>

definition makeName :: "Path \<Rightarrow> nat \<Rightarrow> Path" where
  "makeName prof num = prof @ ''-'' @ showNat num @ ''-link''"

definition parseName :: "Path \<Rightarrow> Path \<Rightarrow> nat option" where
  "parseName prof name =
     (let pre = prof @ ''-''; suf = ''-link'' in
      if length pre + length suf \<le> length name
         \<and> take (length pre) name = pre
         \<and> drop (length name - length suf) name = suf
      then parseNat (take (length name - length pre - length suf) (drop (length pre) name))
      else None)"

definition existingGenerations :: "Path \<Rightarrow> Links \<Rightarrow> nat list" where
  "existingGenerations prof ls = List.map_filter (\<lambda>e. parseName prof (fst e)) ls"

subsection \<open>Creating a generation and switching to it\<close>

text \<open>
  Modelled from the spec: \<^verbatim>\<open>createGeneration\<close> is in \<^verbatim>\<open>profiles.cc\<close>, which is not under
  \<^verbatim>\<open>src/\<close>. The next generation number is the maximum of the existing generation
  numbers plus one, or one if none exist; the new link is named from the profile path and
  that number and points at the target. It fails with \<^verbatim>\<open>StoreError\<close> if the target is not
  a valid path known to the store.
\<close>

definition nextGenerationNumber :: "Path \<Rightarrow> Links \<Rightarrow> nat" where
  "nextGenerationNumber prof ls =
     (let gens = existingGenerations prof ls in
      if gens = [] then 1 else Max (set gens) + 1)"

definition createGeneration :: "Store \<Rightarrow> Path \<Rightarrow> Path \<Rightarrow> Links \<Rightarrow> (error + Path) \<times> Links" where
  "createGeneration store prof target ls =
     (if target \<notin> set (map (printStorePath store) (validPaths store)) then
        (Inl (StoreError ''path is not valid''), ls)
      else
        (let generation = makeName prof (nextGenerationNumber prof ls) in
         case applyOp (CreateSymlink target generation) ls of
           Inl e \<Rightarrow> (Inl e, ls)
         | Inr ls' \<Rightarrow> (Inr generation, ls')))"



text \<open>
  Modelled from the spec: \<^verbatim>\<open>switchLink\<close> (the spec's \<^verbatim>\<open>switchProfile\<close>) is in
  \<^verbatim>\<open>profiles.cc\<close>, which is not under \<^verbatim>\<open>src/\<close>. The update is create-new-then-rename: a
  temporary link to the generation is created beside the profile and renamed over it.
\<close>

definition tmpLink :: "Path \<Rightarrow> Path" where
  "tmpLink link = link @ ''.tmp''"

definition switchLinkOps :: "Path \<Rightarrow> Path \<Rightarrow> disk_op list" where
  "switchLinkOps link target =
     [CreateSymlink target (tmpLink link), RenameFile (tmpLink link) link]"

definition switchLink :: "Path \<Rightarrow> Path \<Rightarrow> Links \<Rightarrow> error option \<times> Links" where
  "switchLink link target ls = applyOps (switchLinkOps link target) ls"

text \<open>
  The links on disk when the process is interrupted after the first \<open>k\<close> steps of a
  sequence: what a concurrent reader finds at that moment.
\<close>

definition interrupted :: "disk_op list \<Rightarrow> nat \<Rightarrow> Links \<Rightarrow> Links" where
  "interrupted steps k ls = snd (applyOps (take k steps) ls)"

subsection \<open>Updating a profile\<close>

text \<open>\<^verbatim>\<open>MixProfile::updateProfile(const StorePath &)\<close>, lines 139 to 149.\<close>

definition updateProfile :: "StorePath \<Rightarrow> State \<Rightarrow> unit result" where
  "updateProfile storePath s =
     (case profile s of
        None \<Rightarrow> (Inr (), s)
      | Some prof \<Rightarrow>
          (let (store, s1) = getStore s in
           if \<not> localFS store then
             (Inl (Error '''--profile' is not supported for this Nix store''), s1)
           else
             (let profile2 = absPath s1 prof in
              case createGeneration store profile2 (printStorePath store storePath) (links s1) of
                (Inl e, ls) \<Rightarrow> (Inl e, s1\<lparr>links := ls\<rparr>)
              | (Inr generation, ls) \<Rightarrow>
                  (case switchLink profile2 generation ls of
                     (Some e, ls') \<Rightarrow> (Inl e, s1\<lparr>links := ls'\<rparr>)
                   | (None, ls') \<Rightarrow> (Inr (), s1\<lparr>links := ls'\<rparr>)))))"

text \<open>
  \<^verbatim>\<open>MixProfile::updateProfile(const Buildables &)\<close>, lines 151 to 169. The two nested
  loops carry \<^verbatim>\<open>result\<close>; the throw inside the inner loop ends both.
\<close>

abbreviation multipleMsg :: string where
  "multipleMsg \<equiv>
     '''--profile' requires that the arguments produce a single store path, but there are multiple''"

abbreviation noneMsg :: string where
  "noneMsg \<equiv>
     '''--profile' requires that the arguments produce a single store path, but there are none''"

fun scanOutputs :: "StorePath option \<Rightarrow> (string \<times> StorePath) list \<Rightarrow> error + StorePath option" where
  "scanOutputs result [] = Inr result"
| "scanOutputs result (output # rest) =
     (if result \<noteq> None then Inl (Error multipleMsg)
      else scanOutputs (Some (snd output)) rest)"

fun scanBuildables :: "StorePath option \<Rightarrow> Buildables \<Rightarrow> error + StorePath option" where
  "scanBuildables result [] = Inr result"
| "scanBuildables result (buildable # rest) =
     (case scanOutputs result (outputs buildable) of
        Inl e \<Rightarrow> Inl e
      | Inr result' \<Rightarrow> scanBuildables result' rest)"

definition updateProfileBuildables :: "Buildables \<Rightarrow> State \<Rightarrow> unit result" where
  "updateProfileBuildables buildables s =
     (if profile s = None then (Inr (), s)
      else
        (case scanBuildables None buildables of
           Inl e \<Rightarrow> (Inl e, s)
         | Inr None \<Rightarrow> (Inl (Error noneMsg), s)
         | Inr (Some result) \<Rightarrow> updateProfile result s))"

section \<open>A concrete store and command\<close>

text \<open>
  A store with three valid paths, \<open>a\<close> referring to \<open>b\<close> (by a repeated edge) and \<open>b\<close> to
  \<open>c\<close>, and a command with the profile \<open>p\<close> and two installables, of which \<open>x\<close> resolves to
  \<open>b\<close> and \<open>a\<close>, and \<open>y\<close> to \<open>a\<close>; a third installable \<open>z\<close> would resolve to \<open>c\<close>.
\<close>

definition exampleStore :: Store where
  "exampleStore =
     \<lparr>localFS = True, printStorePath = (\<lambda>p. ''/nix/store/'' @ p),
      validPaths = [''c'', ''a'', ''b'', ''a''],
      references = [(''a'', ''b''), (''b'', ''c''), (''a'', ''b'')]\<rparr>"

definition exampleState :: State where
  "exampleState =
     \<lparr>store_member = None, profile = Some ''p'', installables = [''x'', ''y''],
      all = False, recursive = False, realiseMode = Nothing, operateOn = Output,
      openStore = exampleStore, absPath = (\<lambda>p. ''/'' @ p),
      evaluator = (\<lambda>mode oper i.
        if i = ''x'' then Inr [''b'', ''a'']
        else if i = ''y'' then Inr [''a'']
        else if i = ''z'' then Inr [''c'']
        else Inl (ResolutionError i)),
      links = [], trace = []\<rparr>"

text \<open>A command whose own \<^verbatim>\<open>run\<close> does nothing.\<close>

definition idle :: "Store \<Rightarrow> 'a \<Rightarrow> State \<Rightarrow> unit result" where
  "idle store x s = (Inr (), s)"

section \<open>Evaluation helpers\<close>

declare showNat.simps [simp del]

lemmas update_defs =
  updateProfile_def getStore_def createStore_def createGeneration_def
  nextGenerationNumber_def existingGenerations_def List.map_filter_def makeName_def
  parseName_def parseNat_def switchLink_def switchLinkOps_def tmpLink_def Let_def
  digitChar_def digitVal_def digits_def

section \<open>The two loops of \<^verbatim>\<open>updateProfile(const Buildables &)\<close>\<close>

lemma scanOutputs_append:
  "scanOutputs r (xs @ ys) =
     (case scanOutputs r xs of Inl e \<Rightarrow> Inl e | Inr r' \<Rightarrow> scanOutputs r' ys)"
  by (induction xs arbitrary: r) auto

lemma scanBuildables_concat:
  "scanBuildables r bs = scanOutputs r (concat (map outputs bs))"
  by (induction bs arbitrary: r) (auto simp: scanOutputs_append split: sum.splits)

lemma scanOutputs_None:
  "scanOutputs None xs =
     (case xs of
        [] \<Rightarrow> Inr None
      | [out] \<Rightarrow> Inr (Some (snd out))
      | _ \<Rightarrow> Inl (Error multipleMsg))"
  by (simp split: list.splits)

lemma scanOutputs_cases:
  "(case scanOutputs None xs of
      Inl e \<Rightarrow> (Inl e, s)
    | Inr None \<Rightarrow> (Inl (Error noneMsg), s)
    | Inr (Some result) \<Rightarrow> f result) =
   (case xs of
      [] \<Rightarrow> (Inl (Error noneMsg), s)
    | [out] \<Rightarrow> f (snd out)
    | _ \<Rightarrow> (Inl (Error multipleMsg), s))"
  by (simp split: list.splits)

lemma updateProfileBuildables_by_outputs:
  "profile s = Some prof \<Longrightarrow>
   updateProfileBuildables bs s =
     (case concat (map outputs bs) of
        [] \<Rightarrow> (Inl (Error noneMsg), s)
      | [out] \<Rightarrow> updateProfile (snd out) s
      | _ \<Rightarrow> (Inl (Error multipleMsg), s))"
  by (simp add: updateProfileBuildables_def scanBuildables_concat scanOutputs_cases)

lemma updateProfile_not_local:
  "profile s = Some prof \<Longrightarrow> \<not> localFS (fst (getStore s)) \<Longrightarrow>
   updateProfile p s =
     (Inl (Error '''--profile' is not supported for this Nix store''), snd (getStore s))"
  by (auto simp: updateProfile_def split: prod.splits)

lemma getStore_links: "links (snd (getStore s)) = links s"
  by (simp add: getStore_def createStore_def split: option.splits)

section \<open>Claims about \<^verbatim>\<open>updateProfile\<close>\<close>

text \<open>
  Claim C1, as amended. With a profile set, \<^verbatim>\<open>updateProfile\<close> on a buildable set counts
  outputs, not distinct store paths. With no output at all it fails with the error "there
  are none"; with two or more outputs across all buildables it fails with the error "there
  are multiple", also when they all map to one path; with exactly one output it does what
  \<^verbatim>\<open>updateProfile\<close> on that output's store path does. In the two failing cases nothing
  changes.
\<close>

theorem updateProfileBuildables_one_output:
  "profile s \<noteq> None \<Longrightarrow>
     (concat (map outputs bs) = [] \<longrightarrow>
        updateProfileBuildables bs s = (Inl (Error noneMsg), s))
   \<and> (1 < length (concat (map outputs bs)) \<longrightarrow>
        updateProfileBuildables bs s = (Inl (Error multipleMsg), s))
   \<and> (\<forall>out. concat (map outputs bs) = [out] \<longrightarrow>
        updateProfileBuildables bs s = updateProfile (snd out) s)"
proof -
  assume "profile s \<noteq> None"
  then obtain prof where "profile s = Some prof"
    by auto
  note eq = updateProfileBuildables_by_outputs [OF this, of bs]
  show ?thesis
    by (cases "concat (map outputs bs)"; cases "tl (concat (map outputs bs))")
      (simp_all only: eq list.case list.sel list.simps length_Cons list.size, simp_all)
qed

theorem updateProfileBuildables_one_output_witness:
  "profile exampleState \<noteq> None
   \<and> updateProfileBuildables [\<lparr>outputs = []\<rparr>] exampleState
       = (Inl (Error noneMsg), exampleState)
   \<and> updateProfileBuildables [\<lparr>outputs = [(''out'', ''a'')]\<rparr>, \<lparr>outputs = [(''out'', ''b'')]\<rparr>]
         exampleState
       = (Inl (Error multipleMsg), exampleState)
   \<and> updateProfileBuildables [\<lparr>outputs = []\<rparr>, \<lparr>outputs = [(''out'', ''a'')]\<rparr>] exampleState
       = updateProfile ''a'' exampleState
   \<and> fst (updateProfile ''a'' exampleState) = Inr ()
   \<and> resolveProfile (links (snd (updateProfile ''a'' exampleState))) ''/p''
       = Some ''/nix/store/a''"
proof -
  have set: "profile exampleState \<noteq> None"
    by (simp add: exampleState_def)
  have published: "fst (updateProfile ''a'' exampleState) = Inr ()
      \<and> resolveProfile (links (snd (updateProfile ''a'' exampleState))) ''/p''
          = Some ''/nix/store/a''"
    by (simp add: update_defs exampleState_def exampleStore_def showNat.simps
        resolveProfile_def readLink_def)
  show ?thesis
    using set published
      updateProfileBuildables_one_output [OF set, of "[\<lparr>outputs = []\<rparr>]"]
      updateProfileBuildables_one_output [OF set,
        of "[\<lparr>outputs = [(''out'', ''a'')]\<rparr>, \<lparr>outputs = [(''out'', ''b'')]\<rparr>]"]
      updateProfileBuildables_one_output [OF set,
        of "[\<lparr>outputs = []\<rparr>, \<lparr>outputs = [(''out'', ''a'')]\<rparr>]"]
    by simp
qed

text \<open>
  Claim C1 as stated fails: two outputs that map to the same store path \<open>a\<close> present one
  distinct path, and the update fails with "there are multiple" instead of publishing \<open>a\<close>.
\<close>

theorem updateProfileBuildables_same_path_counterexample:
  "profile exampleState \<noteq> None
   \<and> set (map snd (concat (map outputs [\<lparr>outputs = [(''dev'', ''a''), (''out'', ''a'')]\<rparr>])))
       = {''a''}
   \<and> updateProfileBuildables [\<lparr>outputs = [(''dev'', ''a''), (''out'', ''a'')]\<rparr>] exampleState
       = (Inl (Error multipleMsg), exampleState)"
  by (simp add: updateProfileBuildables_def exampleState_def)

text \<open>
  Claim C7. With a profile set and a store that is not a \<^verbatim>\<open>LocalFSStore\<close>,
  \<^verbatim>\<open>updateProfile\<close> on a store path fails with the error "'--profile' is not supported for
  this Nix store" and leaves the links on disk as they were; the only change is the one
  \<^verbatim>\<open>getStore\<close> makes to the command. The overload on a buildable set changes no link
  either, and fails with the same error when the buildables have exactly one output.
\<close>

theorem updateProfile_requires_LocalFSStore:
  "profile s = Some prof \<Longrightarrow> \<not> localFS (fst (getStore s)) \<Longrightarrow>
     updateProfile p s =
       (Inl (Error '''--profile' is not supported for this Nix store''), snd (getStore s))
   \<and> links (snd (updateProfile p s)) = links s
   \<and> (\<forall>out. concat (map outputs bs) = [out] \<longrightarrow>
        updateProfileBuildables bs s =
          (Inl (Error '''--profile' is not supported for this Nix store''), snd (getStore s)))
   \<and> links (snd (updateProfileBuildables bs s)) = links s"
proof -
  assume prof: "profile s = Some prof" and remote: "\<not> localFS (fst (getStore s))"
  note single = updateProfile_not_local [OF prof remote]
  note eq = updateProfileBuildables_by_outputs [OF prof, of bs]
  have "links (snd (updateProfileBuildables bs s)) = links s"
    by (simp add: eq single getStore_links split: list.splits)
  moreover have "updateProfileBuildables bs s =
      (Inl (Error '''--profile' is not supported for this Nix store''), snd (getStore s))"
    if "concat (map outputs bs) = [out]" for out
    by (simp only: eq that list.case single)
  ultimately show ?thesis
    using single by (simp add: getStore_links)
qed

theorem updateProfile_requires_LocalFSStore_witness:
  "profile (exampleState\<lparr>openStore := exampleStore\<lparr>localFS := False\<rparr>\<rparr>) = Some ''p''
   \<and> \<not> localFS (fst (getStore (exampleState\<lparr>openStore := exampleStore\<lparr>localFS := False\<rparr>\<rparr>)))
   \<and> fst (updateProfile ''a'' (exampleState\<lparr>openStore := exampleStore\<lparr>localFS := False\<rparr>\<rparr>))
       = Inl (Error '''--profile' is not supported for this Nix store'')
   \<and> links (snd (updateProfile ''a'' (exampleState\<lparr>openStore := exampleStore\<lparr>localFS := False\<rparr>\<rparr>)))
       = []
   \<and> fst (updateProfileBuildables [\<lparr>outputs = [(''out'', ''a'')]\<rparr>]
        (exampleState\<lparr>openStore := exampleStore\<lparr>localFS := False\<rparr>\<rparr>))
       = Inl (Error '''--profile' is not supported for this Nix store'')"
proof -
  let ?s = "exampleState\<lparr>openStore := exampleStore\<lparr>localFS := False\<rparr>\<rparr>"
  have prof: "profile ?s = Some ''p''"
    by (simp add: exampleState_def)
  have remote: "\<not> localFS (fst (getStore ?s))"
    by (simp add: exampleState_def exampleStore_def getStore_def createStore_def)
  have empty: "links ?s = []"
    by (simp add: exampleState_def)
  show ?thesis
    using prof remote empty getStore_links [of ?s]
      updateProfile_requires_LocalFSStore [OF prof remote,
        of "''a''" "[\<lparr>outputs = [(''out'', ''a'')]\<rparr>]"]
    by simp
qed

text \<open>
  Claim C9. With no profile set, both overloads of \<^verbatim>\<open>updateProfile\<close> return at once and
  successfully, whatever their argument: the state is unchanged, so no store is opened
  (\<^verbatim>\<open>_store\<close> and the log are as before), no link is created, and the outputs of the
  buildables are never counted.
\<close>

theorem updateProfile_without_profile:
  "profile s = None \<Longrightarrow>
     updateProfile p s = (Inr (), s) \<and> updateProfileBuildables bs s = (Inr (), s)"
  by (simp add: updateProfile_def updateProfileBuildables_def)

theorem updateProfile_without_profile_witness:
  "profile (exampleState\<lparr>profile := None\<rparr>) = None
   \<and> updateProfile ''a'' (exampleState\<lparr>profile := None\<rparr>)
       = (Inr (), exampleState\<lparr>profile := None\<rparr>)
   \<and> updateProfileBuildables [\<lparr>outputs = [(''dev'', ''a''), (''out'', ''b'')]\<rparr>, \<lparr>outputs = []\<rparr>]
         (exampleState\<lparr>profile := None\<rparr>)
       = (Inr (), exampleState\<lparr>profile := None\<rparr>)
   \<and> updateProfileBuildables [] (exampleState\<lparr>profile := None\<rparr>)
       = (Inr (), exampleState\<lparr>profile := None\<rparr>)"
  using
    updateProfile_without_profile [of "exampleState\<lparr>profile := None\<rparr>" "''a''"
      "[\<lparr>outputs = [(''dev'', ''a''), (''out'', ''b'')]\<rparr>, \<lparr>outputs = []\<rparr>]"]
    updateProfile_without_profile [of "exampleState\<lparr>profile := None\<rparr>" "''a''" "[]"]
  by (simp add: exampleState_def)

section \<open>Claims about the commands on store paths\<close>

text \<open>
  Claim C3. When \<^verbatim>\<open>all\<close> is set and the list of installables is not empty,
  \<^verbatim>\<open>StorePathsCommand::run\<close> fails with the usage error "'--all' does not expect
  arguments". The state is returned unchanged: the log has no new entry, so the store was
  not queried and no installable was resolved, and the command's own \<^verbatim>\<open>run\<close> is not
  reached.
\<close>

theorem all_with_installables_UsageError:
  "all s \<Longrightarrow> installables s \<noteq> [] \<Longrightarrow>
     storePaths store s = (Inl (UsageError '''--all' does not expect arguments''), s)
   \<and> StorePathsCommand_run k store s
       = (Inl (UsageError '''--all' does not expect arguments''), s)"
  by (simp add: storePaths_def StorePathsCommand_run_def)

theorem all_with_installables_UsageError_witness:
  "all (exampleState\<lparr>all := True\<rparr>)
   \<and> installables (exampleState\<lparr>all := True\<rparr>) \<noteq> []
   \<and> StorePathsCommand_run idle exampleStore (exampleState\<lparr>all := True\<rparr>)
       = (Inl (UsageError '''--all' does not expect arguments''), exampleState\<lparr>all := True\<rparr>)"
  using all_with_installables_UsageError [of "exampleState\<lparr>all := True\<rparr>" exampleStore idle]
  by (simp add: exampleState_def)

text \<open>
  Claim C5. In \<^verbatim>\<open>StorePathCommand::run\<close>, when the installables resolve to no path or to
  more than one path, the command fails with the usage error "this command requires
  exactly one store path"; when they resolve to exactly one path, the command's own
  \<^verbatim>\<open>run\<close> is called with that path.
\<close>

theorem StorePathCommand_exactly_one:
  "toStorePaths store Nothing (operateOn s) (installables s) s = (Inr ps, s1) \<Longrightarrow>
     (ps = [] \<longrightarrow>
        StorePathCommand_run k store s
          = (Inl (UsageError ''this command requires exactly one store path''), s1))
   \<and> (1 < length ps \<longrightarrow>
        StorePathCommand_run k store s
          = (Inl (UsageError ''this command requires exactly one store path''), s1))
   \<and> (\<forall>p. ps = [p] \<longrightarrow> StorePathCommand_run k store s = k store p s1)"
  by (auto simp: StorePathCommand_run_def)

theorem StorePathCommand_exactly_one_witness:
  "toStorePaths exampleStore Nothing (operateOn exampleState) (installables exampleState)
       exampleState
     = (Inr [''b'', ''a''], exampleState\<lparr>trace := [ToStorePaths]\<rparr>)
   \<and> StorePathCommand_run idle exampleStore exampleState
     = (Inl (UsageError ''this command requires exactly one store path''),
        exampleState\<lparr>trace := [ToStorePaths]\<rparr>)
   \<and> toStorePaths exampleStore Nothing (operateOn (exampleState\<lparr>installables := [''y'']\<rparr>))
       (installables (exampleState\<lparr>installables := [''y'']\<rparr>))
       (exampleState\<lparr>installables := [''y'']\<rparr>)
     = (Inr [''a''], exampleState\<lparr>installables := [''y''], trace := [ToStorePaths]\<rparr>)
   \<and> StorePathCommand_run idle exampleStore (exampleState\<lparr>installables := [''y'']\<rparr>)
     = idle exampleStore ''a'' (exampleState\<lparr>installables := [''y''], trace := [ToStorePaths]\<rparr>)"
proof -
  have two: "toStorePaths exampleStore Nothing (operateOn exampleState)
      (installables exampleState) exampleState
    = (Inr [''b'', ''a''], exampleState\<lparr>trace := [ToStorePaths]\<rparr>)"
    by (simp add: toStorePaths_def exampleState_def)
  have one: "toStorePaths exampleStore Nothing (operateOn (exampleState\<lparr>installables := [''y'']\<rparr>))
      (installables (exampleState\<lparr>installables := [''y'']\<rparr>))
      (exampleState\<lparr>installables := [''y'']\<rparr>)
    = (Inr [''a''], exampleState\<lparr>installables := [''y''], trace := [ToStorePaths]\<rparr>)"
    by (simp add: toStorePaths_def exampleState_def)
  show ?thesis
    using two one
      StorePathCommand_exactly_one [OF two, of idle]
      StorePathCommand_exactly_one [OF one, of idle]
    by simp
qed

text \<open>
  Claim C10. When \<^verbatim>\<open>all\<close> is set and there are no installables, the paths handed to the
  command are the store's valid paths, each once, whatever the value of \<^verbatim>\<open>recursive\<close>:
  the only access to the store is \<^verbatim>\<open>queryAllValidPaths\<close>, and no closure is computed.
\<close>

theorem all_yields_valid_paths:
  "all s \<Longrightarrow> installables s = [] \<Longrightarrow>
     fst (storePaths store (s\<lparr>recursive := b\<rparr>)) = Inr (StorePathSet (validPaths store))
   \<and> set (StorePathSet (validPaths store)) = set (validPaths store)
   \<and> distinct (StorePathSet (validPaths store))
   \<and> trace (snd (storePaths store (s\<lparr>recursive := b\<rparr>))) = trace s @ [QueryAllValidPaths]"
  by (simp add: storePaths_def queryAllValidPaths_def StorePathSet_def)

theorem all_yields_valid_paths_witness:
  "all (exampleState\<lparr>all := True, installables := []\<rparr>)
   \<and> installables (exampleState\<lparr>all := True, installables := []\<rparr>) = []
   \<and> fst (storePaths exampleStore (exampleState\<lparr>all := True, installables := [], recursive := True\<rparr>))
       = Inr [''a'', ''b'', ''c'']
   \<and> fst (storePaths exampleStore (exampleState\<lparr>all := True, installables := [], recursive := False\<rparr>))
       = Inr [''a'', ''b'', ''c'']"
proof -
  let ?s = "exampleState\<lparr>all := True, installables := []\<rparr>"
  have a: "all ?s" and i: "installables ?s = []"
    by (simp_all add: exampleState_def)
  have v: "StorePathSet (validPaths exampleStore) = [''a'', ''b'', ''c'']"
    by (simp add: StorePathSet_def exampleStore_def)
  show ?thesis
    using a i v
      all_yields_valid_paths [OF a i, of exampleStore True]
      all_yields_valid_paths [OF a i, of exampleStore False]
    by simp
qed

section \<open>Closure and order of the path list\<close>

lemma set_successors: "set (successors refs p) = set refs `` {p}"
  by (force simp: successors_def)

lemma traverse_keeps: "set visited \<union> set todo \<subseteq> set (traverse refs todo visited)"
  by (induction refs todo visited rule: traverse.induct) auto

lemma traverse_distinct: "distinct visited \<Longrightarrow> distinct (traverse refs todo visited)"
  by (induction refs todo visited rule: traverse.induct) auto

lemma traverse_sound:
  "set (traverse refs todo visited) \<subseteq> set visited \<union> (set refs)\<^sup>* `` set todo"
proof (induction refs todo visited rule: traverse.induct)
  case (1 refs visited)
  then show ?case by simp
next
  case (2 refs p todo visited)
  show ?case
  proof (cases "p \<in> set visited")
    case True
    with 2 show ?thesis by auto
  next
    case False
    have "(set refs)\<^sup>* `` set (successors refs p) \<subseteq> (set refs)\<^sup>* `` {p}"
      by (auto simp: set_successors intro: converse_rtrancl_into_rtrancl)
    with 2 False show ?thesis
      by (auto simp: Image_Un)
  qed
qed

lemma traverse_closed:
  "\<forall>v\<in>set visited. set (successors refs v) \<subseteq> set visited \<union> set todo \<Longrightarrow>
   \<forall>v\<in>set (traverse refs todo visited).
      set (successors refs v) \<subseteq> set (traverse refs todo visited)"
proof (induction refs todo visited rule: traverse.induct)
  case (1 refs visited)
  then show ?case by simp
next
  case (2 refs p todo visited)
  show ?case
  proof (cases "p \<in> set visited")
    case True
    have "\<forall>v\<in>set visited. set (successors refs v) \<subseteq> set visited \<union> set todo"
      using "2.prems" True by auto
    with 2 True show ?thesis by simp
  next
    case False
    have "\<forall>v\<in>set (visited @ [p]).
        set (successors refs v) \<subseteq> set (visited @ [p]) \<union> set (successors refs p @ todo)"
      using "2.prems" by auto
    with 2 False show ?thesis by simp
  qed
qed

lemma traverse_reachable:
  "set (traverse refs roots []) = (set refs)\<^sup>* `` set roots"
proof
  show "set (traverse refs roots []) \<subseteq> (set refs)\<^sup>* `` set roots"
    using traverse_sound [of refs roots "[]"] by simp
next
  let ?R = "set (traverse refs roots [])"
  have closed: "\<forall>v\<in>?R. set (successors refs v) \<subseteq> ?R"
    by (rule traverse_closed) simp
  have roots: "set roots \<subseteq> ?R"
    using traverse_keeps [of "[]" roots refs] by simp
  have "q \<in> ?R" if "(r, q) \<in> (set refs)\<^sup>*" and "r \<in> ?R" for r q
    using that
  proof (induction rule: rtrancl_induct)
    case base
    then show ?case .
  next
    case (step y z)
    then have "z \<in> set (successors refs y)"
      by (simp add: set_successors)
    with step closed show ?case by blast
  qed
  with roots show "(set refs)\<^sup>* `` set roots \<subseteq> ?R"
    by blast
qed

lemma set_StorePathSet: "set (StorePathSet ps) = set ps"
  by (simp add: StorePathSet_def)

lemma distinct_StorePathSet: "distinct (StorePathSet ps)"
  by (simp add: StorePathSet_def)

lemma sorted_StorePathSet: "sorted (StorePathSet ps)"
  by (simp add: StorePathSet_def)

lemma toStorePaths_state:
  "toStorePaths store mode oper insts s = (r, s1) \<Longrightarrow> s1 = s\<lparr>trace := trace s @ [ToStorePaths]\<rparr>"
  by (auto simp: toStorePaths_def split: sum.splits)

lemma storePaths_selected:
  "\<not> all s \<Longrightarrow>
   toStorePaths store (realiseMode s) (operateOn s) (installables s) s = (Inr roots, s1) \<Longrightarrow>
   fst (storePaths store s) =
     Inr (if recursive s then StorePathSet (traverse (references store) (StorePathSet roots) [])
          else roots)"
  by (frule toStorePaths_state) (simp add: storePaths_def computeFSClosure_def)

text \<open>
  Claim C4. In recursive mode the paths handed to the command are exactly the paths that
  can be reached from the resolved roots along reference edges (the roots included), each
  listed once; the traversal behind them visits every such path exactly once, whatever
  edges are repeated and whatever cycles the graph has, since the traversal is total. In
  non-recursive mode the paths are the roots alone.
\<close>

theorem closure_is_reachable_set:
  "\<not> all s \<Longrightarrow>
   toStorePaths store (realiseMode s) (operateOn s) (installables s) s = (Inr roots, s1) \<Longrightarrow>
     (recursive s \<longrightarrow>
        (\<exists>ps. fst (storePaths store s) = Inr ps
           \<and> set ps = (set (references store))\<^sup>* `` set roots \<and> distinct ps))
   \<and> (\<not> recursive s \<longrightarrow> fst (storePaths store s) = Inr roots)
   \<and> set (traverse (references store) (StorePathSet roots) [])
        = (set (references store))\<^sup>* `` set roots
   \<and> distinct (traverse (references store) (StorePathSet roots) [])"
  by (simp add: storePaths_selected set_StorePathSet distinct_StorePathSet traverse_reachable
      traverse_distinct)


theorem closure_is_reachable_set_witness:
  "\<not> all (exampleState\<lparr>installables := [''y''], recursive := True\<rparr>)
   \<and> fst (toStorePaths exampleStore Nothing Output [''y'']
         (exampleState\<lparr>installables := [''y''], recursive := True\<rparr>)) = Inr [''a'']
   \<and> fst (storePaths exampleStore (exampleState\<lparr>installables := [''y''], recursive := True\<rparr>))
       = Inr [''a'', ''b'', ''c'']
   \<and> (set (references exampleStore))\<^sup>* `` {''a''} = {''a'', ''b'', ''c''}
   \<and> fst (storePaths exampleStore (exampleState\<lparr>installables := [''z''], recursive := True\<rparr>))
       = Inr [''c'']
   \<and> fst (storePaths exampleStore (exampleState\<lparr>installables := [''y'']\<rparr>)) = Inr [''a'']"
proof -
  let ?s = "exampleState\<lparr>installables := [''y''], recursive := True\<rparr>"
  have a: "\<not> all ?s"
    by (simp add: exampleState_def)
  have r: "toStorePaths exampleStore (realiseMode ?s) (operateOn ?s) (installables ?s) ?s
      = (Inr [''a''], ?s\<lparr>trace := [ToStorePaths]\<rparr>)"
    by (simp add: toStorePaths_def exampleState_def)
  have rec: "recursive ?s"
    by (simp add: exampleState_def)
  have t: "fst (toStorePaths exampleStore Nothing Output [''y''] ?s) = Inr [''a'']"
    by (simp add: toStorePaths_def exampleState_def)
  have y: "fst (storePaths exampleStore ?s) = Inr [''a'', ''b'', ''c'']"
    by (simp add: storePaths_def toStorePaths_def computeFSClosure_def StorePathSet_def
        exampleState_def exampleStore_def successors_def)
  have z: "fst (storePaths exampleStore (exampleState\<lparr>installables := [''z''], recursive := True\<rparr>))
      = Inr [''c'']"
    by (simp add: storePaths_def toStorePaths_def computeFSClosure_def StorePathSet_def
        exampleState_def exampleStore_def successors_def)
  have n: "fst (storePaths exampleStore (exampleState\<lparr>installables := [''y'']\<rparr>)) = Inr [''a'']"
    by (simp add: storePaths_def toStorePaths_def exampleState_def)
  from closure_is_reachable_set [OF a r] rec y
  have "set [''a'', ''b'', ''c''] = (set (references exampleStore))\<^sup>* `` set [''a'']"
    by auto
  then have "(set (references exampleStore))\<^sup>* `` {''a''} = {''a'', ''b'', ''c''}"
    by simp
  with a t y z n show ?thesis
    by simp
qed

lemma remdups_snoc: "remdups (ys @ [x]) = remdups (filter (\<lambda>y. y \<noteq> x) ys) @ [x]"
  by (induction ys) auto

lemma firstOccurrences_remdups:
  "firstOccurrences seen xs = rev (remdups (rev (filter (\<lambda>x. x \<notin> set seen) xs)))"
proof (induction xs arbitrary: seen)
  case Nil
  then show ?case by simp
next
  case (Cons x xs)
  show ?case
  proof (cases "x \<in> set seen")
    case True
    then show ?thesis by (simp add: Cons)
  next
    case False
    have "filter (\<lambda>y. y \<noteq> x) (rev (filter (\<lambda>y. y \<notin> set seen) xs))
        = rev (filter (\<lambda>y. y \<notin> set (x # seen)) xs)"
      by (simp add: rev_filter [symmetric] conj_commute)
    with False show ?thesis
      by (simp add: Cons remdups_snoc)
  qed
qed

lemma firstOccurrences_Nil: "firstOccurrences [] xs = rev (remdups (rev xs))"
  by (simp add: firstOccurrences_remdups)

text \<open>
  Claim C2, as amended. When the installables resolve to the paths \<open>qs\<close>, the path list of
  \<^verbatim>\<open>StorePathsCommand::run\<close> has no duplicates and contains every resolved path, in both
  modes. In non-recursive mode it is the list of first occurrences of \<open>qs\<close>, in order. In
  recursive mode it is the closure of \<open>qs\<close> in the increasing order of store paths, which is
  the iteration order of the \<^verbatim>\<open>StorePathSet\<close> the closure is collected in.
\<close>

theorem storePaths_distinct:
  "\<not> all s \<Longrightarrow>
   resolveEach (evaluator s (realiseMode s) (operateOn s)) (installables s) = Inr qs \<Longrightarrow>
   \<exists>ps. fst (storePaths store s) = Inr ps
      \<and> distinct ps
      \<and> set qs \<subseteq> set ps
      \<and> (\<not> recursive s \<longrightarrow> ps = rev (remdups (rev qs)))
      \<and> (recursive s \<longrightarrow> sorted ps \<and> set ps = (set (references store))\<^sup>* `` set qs)"
proof -
  assume a: "\<not> all s"
    and q: "resolveEach (evaluator s (realiseMode s) (operateOn s)) (installables s) = Inr qs"
  let ?roots = "rev (remdups (rev qs))"
  have r: "toStorePaths store (realiseMode s) (operateOn s) (installables s) s
      = (Inr ?roots, s\<lparr>trace := trace s @ [ToStorePaths]\<rparr>)"
    by (simp add: toStorePaths_def q firstOccurrences_Nil)
  note sel = storePaths_selected [OF a r]
  show ?thesis
  proof (cases "recursive s")
    case True
    have "set qs \<subseteq> (set (references store))\<^sup>* `` set qs"
      by auto
    with True show ?thesis
      by (simp add: sel set_StorePathSet distinct_StorePathSet sorted_StorePathSet
          traverse_reachable)
  next
    case False
    then show ?thesis
      by (simp add: sel)
  qed
qed

theorem storePaths_distinct_witness:
  "\<not> all exampleState
   \<and> resolveEach (evaluator exampleState (realiseMode exampleState) (operateOn exampleState))
       (installables exampleState) = Inr [''b'', ''a'', ''a'']
   \<and> fst (storePaths exampleStore exampleState) = Inr [''b'', ''a'']
   \<and> fst (storePaths exampleStore (exampleState\<lparr>recursive := True\<rparr>)) = Inr [''a'', ''b'', ''c'']"
proof -
  have a: "\<not> all exampleState"
    by (simp add: exampleState_def)
  have q: "resolveEach (evaluator exampleState (realiseMode exampleState) (operateOn exampleState))
       (installables exampleState) = Inr [''b'', ''a'', ''a'']"
    by (simp add: exampleState_def)
  have n: "\<not> recursive exampleState"
    by (simp add: exampleState_def)
  have r: "fst (storePaths exampleStore (exampleState\<lparr>recursive := True\<rparr>))
      = Inr [''a'', ''b'', ''c'']"
    by (simp add: storePaths_def toStorePaths_def computeFSClosure_def StorePathSet_def
        exampleState_def exampleStore_def successors_def)
  from storePaths_distinct [OF a q, of exampleStore] n
  have "fst (storePaths exampleStore exampleState) = Inr [''b'', ''a'']"
    by auto
  with a q r show ?thesis
    by simp
qed

text \<open>
  Claim C2 as stated fails in recursive mode: the installable \<open>x\<close> resolves to \<open>b\<close> and then
  \<open>a\<close>, and the path list is \<open>a\<close>, \<open>b\<close>, \<open>c\<close>, where \<open>a\<close> comes before \<open>b\<close>.
\<close>

theorem storePaths_recursive_order_counterexample:
  "fst (toStorePaths exampleStore Nothing Output [''x'']
      (exampleState\<lparr>installables := [''x''], recursive := True\<rparr>)) = Inr [''b'', ''a'']
   \<and> fst (storePaths exampleStore (exampleState\<lparr>installables := [''x''], recursive := True\<rparr>))
       = Inr [''a'', ''b'', ''c'']
   \<and> filter (\<lambda>p. p \<in> set [''b'', ''a'']) [''a'', ''b'', ''c''] \<noteq> [''b'', ''a'']"
  by (simp add: storePaths_def toStorePaths_def computeFSClosure_def StorePathSet_def
      exampleState_def exampleStore_def successors_def)


section \<open>Generation numbers\<close>

lemma position_nth:
  "distinct ds \<Longrightarrow> n < length ds \<Longrightarrow> position (ds ! n) ds = Some n"
proof (induction ds arbitrary: n)
  case Nil
  then show ?case by simp
next
  case (Cons d ds)
  show ?case
  proof (cases n)
    case 0
    then show ?thesis by simp
  next
    case (Suc m)
    with Cons.prems have "ds ! m \<noteq> d"
      by auto
    with Suc Cons show ?thesis
      by simp
  qed
qed

lemma digitVal_digitChar: "n < 10 \<Longrightarrow> digitVal (digitChar n) = Some n"
  unfolding digitVal_def digitChar_def
  by (rule position_nth) (simp_all add: digits_def)

lemma parseDigits_snoc:
  "parseDigits acc (cs @ [c]) =
     (case parseDigits acc cs of
        None \<Rightarrow> None
      | Some a \<Rightarrow> (case digitVal c of None \<Rightarrow> None | Some d \<Rightarrow> Some (10 * a + d)))"
  by (induction cs arbitrary: acc) (auto split: option.splits)

lemma showNat_not_Nil: "showNat n \<noteq> []"
  by (subst showNat.simps) simp

lemma parseDigits_showNat: "parseDigits 0 (showNat n) = Some n"
proof (induction n rule: showNat.induct)
  case (1 n)
  show ?case
  proof (cases "n < 10")
    case True
    then show ?thesis
      by (subst showNat.simps) (simp add: digitVal_digitChar)
  next
    case False
    with 1 have "parseDigits 0 (showNat (n div 10)) = Some (n div 10)"
      by simp
    with False show ?thesis
      by (subst showNat.simps) (simp add: parseDigits_snoc digitVal_digitChar)
  qed
qed

lemma parseNat_showNat: "parseNat (showNat n) = Some n"
  by (simp add: parseNat_def showNat_not_Nil parseDigits_showNat)

lemma parseName_makeName: "parseName prof (makeName prof n) = Some n"
  by (simp add: parseName_def makeName_def parseNat_showNat)

lemma makeName_inject: "makeName prof m = makeName prof n \<Longrightarrow> m = n"
  by (metis parseName_makeName option.inject)















section \<open>Switching the profile\<close>

lemma readLink_update:
  "readLink (AList.update name content ls) p = (if p = name then Some content else readLink ls p)"
  by (simp add: readLink_def update_conv')

lemma readLink_delete:
  "readLink (AList.delete name ls) p = (if p = name then None else readLink ls p)"
  by (simp add: readLink_def delete_conv')

lemma makeName_not_profile: "makeName prof n \<noteq> prof"
  by (simp add: makeName_def)

lemma makeName_not_tmpLink: "makeName prof n \<noteq> tmpLink prof"
  by (simp add: makeName_def tmpLink_def)

lemma tmpLink_not_profile: "tmpLink prof \<noteq> prof"
  by (simp add: tmpLink_def)

lemma interrupted_0: "interrupted steps 0 ls = ls"
  by (simp add: interrupted_def)

lemma interrupted_switchLink_1:
  "interrupted (switchLinkOps prof generation) (Suc 0) ls =
     (if readLink ls (tmpLink prof) \<noteq> None then ls
      else AList.update (tmpLink prof) generation ls)"
  by (simp add: interrupted_def switchLinkOps_def readLink_def)

lemma switchLink_result:
  "switchLink prof generation ls =
     (if readLink ls (tmpLink prof) \<noteq> None then (Some (StoreError ''file exists''), ls)
      else (None, AList.update prof generation
                    (AList.delete (tmpLink prof) (AList.update (tmpLink prof) generation ls))))"
  by (simp add: switchLink_def switchLinkOps_def readLink_def update_conv')

lemma interrupted_switchLink_2:
  "2 \<le> k \<Longrightarrow>
   interrupted (switchLinkOps prof generation) k ls = snd (switchLink prof generation ls)"
  by (simp add: interrupted_def switchLink_def switchLinkOps_def)

lemma switchLink_switched:
  assumes gen: "readLink ls (makeName prof n) = Some target"
    and ok: "switchLink prof (makeName prof n) ls = (None, ls')"
  shows "readLink ls' prof = Some (makeName prof n) \<and> resolveProfile ls' prof = Some target"
proof -
  have free: "readLink ls (tmpLink prof) = None"
    using ok by (simp add: switchLink_result split: if_splits)
  then have ls': "ls' = AList.update prof (makeName prof n)
      (AList.delete (tmpLink prof) (AList.update (tmpLink prof) (makeName prof n) ls))"
    using ok by (simp add: switchLink_result)
  show ?thesis
    using gen
    by (simp add: ls' resolveProfile_def readLink_update readLink_delete
        makeName_not_profile makeName_not_tmpLink)
qed

lemma switchLink_before_rename:
  assumes inv: "readLink ls prof \<noteq> Some (tmpLink prof)"
  shows "readLink (interrupted (switchLinkOps prof generation) (Suc 0) ls) prof = readLink ls prof
    \<and> resolveProfile (interrupted (switchLinkOps prof generation) (Suc 0) ls) prof
        = resolveProfile ls prof"
  using inv
  by (auto simp: interrupted_switchLink_1 resolveProfile_def readLink_update
      tmpLink_not_profile [symmetric] split: option.splits)


lemma createGeneration_Inr:
  "createGeneration store prof target ls = (Inr generation, ls1) \<Longrightarrow>
   generation = makeName prof (nextGenerationNumber prof ls)
     \<and> ls1 = AList.update generation target ls"
  by (auto simp: createGeneration_def Let_def simp del: set_map split: if_splits sum.splits)

lemma getStore_absPath: "absPath (snd (getStore s)) = absPath s"
  by (simp add: getStore_def createStore_def split: option.splits)

lemma updateProfile_publishes:
  assumes prof: "profile s = Some pr"
    and ok: "updateProfile p s = (Inr (), s')"
  shows "resolveProfile (links s') (absPath s pr) = Some (printStorePath (fst (getStore s)) p)"
proof -
  obtain store s1 where gs: "getStore s = (store, s1)"
    by (cases "getStore s")
  let ?profile2 = "absPath s1 pr"
  let ?target = "printStorePath store p"
  obtain r ls1 where cg: "createGeneration store ?profile2 ?target (links s1) = (r, ls1)"
    by (cases "createGeneration store ?profile2 ?target (links s1)")
  obtain e ls2 where sw: "switchLink ?profile2 (projr r) ls1 = (e, ls2)"
    by (cases "switchLink ?profile2 (projr r) ls1")
  have local: "localFS store"
    using ok by (auto simp: updateProfile_def prof gs split: if_splits)
  have "\<exists>g. r = Inr g"
    using ok local by (cases r) (auto simp: updateProfile_def prof gs cg)
  then obtain g where r: "r = Inr g"
    by auto
  have e: "e = None" and s': "s' = s1\<lparr>links := ls2\<rparr>"
    using ok local sw by (cases e; auto simp: updateProfile_def prof gs cg r)+
  from createGeneration_Inr [OF cg [unfolded r]]
  obtain n where g: "g = makeName ?profile2 n" and ls1: "ls1 = AList.update g ?target (links s1)"
    by auto
  have "readLink ls1 (makeName ?profile2 n) = Some ?target"
    by (simp add: ls1 g readLink_update)
  moreover have "switchLink ?profile2 (makeName ?profile2 n) ls1 = (None, ls2)"
    using sw by (simp add: r g e)
  ultimately have "resolveProfile ls2 ?profile2 = Some ?target"
    by (rule switchLink_switched [THEN conjunct2])
  moreover have "absPath s1 = absPath s"
    using getStore_absPath [of s] by (simp add: gs)
  ultimately show ?thesis
    by (simp add: s' gs)
qed

text \<open>
  Claim C8. Let the link of generation \<open>n\<close> exist and point at \<open>target\<close>, and let the profile be
  absent or point at one of its generation links. Wherever \<^verbatim>\<open>switchLink\<close> is interrupted,
  a reader of the profile finds either what was there before (the same link content, the
  same resolved target) or the new generation and its target, and a profile that existed
  is never missing. Once the rename has been done, which is when \<^verbatim>\<open>switchLink\<close> succeeds,
  the disk stays as it is and the profile resolves to exactly \<open>target\<close>; \<^verbatim>\<open>switchLink\<close>
  succeeds whenever the temporary name is free. A successful \<^verbatim>\<open>updateProfile\<close> leaves the
  profile resolving to the printed store path.
\<close>

theorem switchLink_old_or_new:
  "readLink ls (makeName prof n) = Some target \<Longrightarrow>
   readLink ls prof = None \<or> (\<exists>m. readLink ls prof = Some (makeName prof m)) \<Longrightarrow>
     (\<forall>k. (readLink (interrupted (switchLinkOps prof (makeName prof n)) k ls) prof
              = readLink ls prof
            \<and> resolveProfile (interrupted (switchLinkOps prof (makeName prof n)) k ls) prof
              = resolveProfile ls prof)
          \<or> (readLink (interrupted (switchLinkOps prof (makeName prof n)) k ls) prof
              = Some (makeName prof n)
            \<and> resolveProfile (interrupted (switchLinkOps prof (makeName prof n)) k ls) prof
              = Some target))
   \<and> (\<forall>k. readLink ls prof \<noteq> None \<longrightarrow>
          readLink (interrupted (switchLinkOps prof (makeName prof n)) k ls) prof \<noteq> None)
   \<and> (\<forall>ls'. switchLink prof (makeName prof n) ls = (None, ls') \<longrightarrow>
          (\<forall>k\<ge>2. interrupted (switchLinkOps prof (makeName prof n)) k ls = ls')
        \<and> readLink ls' prof = Some (makeName prof n)
        \<and> resolveProfile ls' prof = Some target)
   \<and> (readLink ls (tmpLink prof) = None \<longrightarrow>
          fst (switchLink prof (makeName prof n) ls) = None)
   \<and> (\<forall>p pr s s'. profile s = Some pr \<and> updateProfile p s = (Inr (), s') \<longrightarrow>
          resolveProfile (links s') (absPath s pr)
            = Some (printStorePath (fst (getStore s)) p))"
proof -
  assume gen: "readLink ls (makeName prof n) = Some target"
    and inv: "readLink ls prof = None \<or> (\<exists>m. readLink ls prof = Some (makeName prof m))"
  let ?ops = "switchLinkOps prof (makeName prof n)"
  let ?old = "\<lambda>ls'. readLink ls' prof = readLink ls prof
      \<and> resolveProfile ls' prof = resolveProfile ls prof"
  let ?new = "\<lambda>ls'. readLink ls' prof = Some (makeName prof n)
      \<and> resolveProfile ls' prof = Some target"
  have not_tmp: "readLink ls prof \<noteq> Some (tmpLink prof)"
    using inv makeName_not_tmpLink [of prof] by auto
  have switched: "?new ls'" if "switchLink prof (makeName prof n) ls = (None, ls')" for ls'
    using gen that by (rule switchLink_switched)
  have final: "?old (snd (switchLink prof (makeName prof n) ls))
      \<or> ?new (snd (switchLink prof (makeName prof n) ls))"
  proof (cases "readLink ls (tmpLink prof) = None")
    case True
    then have "switchLink prof (makeName prof n) ls
        = (None, snd (switchLink prof (makeName prof n) ls))"
      by (simp add: switchLink_result)
    then show ?thesis
      using switched by blast
  next
    case False
    then show ?thesis
      by (simp add: switchLink_result)
  qed
  have steps: "?old (interrupted ?ops k ls) \<or> ?new (interrupted ?ops k ls)" for k
  proof -
    consider "k = 0" | "k = Suc 0" | "2 \<le> k"
      by linarith
    then show ?thesis
    proof cases
      case 1
      then show ?thesis by (simp add: interrupted_0)
    next
      case 2
      then show ?thesis
        using switchLink_before_rename [OF not_tmp, of "makeName prof n"] by simp
    next
      case 3
      then show ?thesis
        using final by (simp add: interrupted_switchLink_2)
    qed
  qed
  have present: "readLink (interrupted ?ops k ls) prof \<noteq> None"
    if "readLink ls prof \<noteq> None" for k
    using steps [of k] that by auto
  have after: "interrupted ?ops k ls = ls'"
    if "switchLink prof (makeName prof n) ls = (None, ls')" and "2 \<le> k" for ls' k
    using that by (simp add: interrupted_switchLink_2)
  have succeeds: "fst (switchLink prof (makeName prof n) ls) = None"
    if "readLink ls (tmpLink prof) = None"
    using that by (simp add: switchLink_result)
  have publish: "resolveProfile (links s') (absPath s pr)
      = Some (printStorePath (fst (getStore s)) p)"
    if "profile s = Some pr \<and> updateProfile p s = (Inr (), s')" for p pr s s'
    using that updateProfile_publishes by blast
  show ?thesis
    using steps present switched after succeeds publish by blast
qed


theorem switchLink_old_or_new_witness:
  "readLink [(''/p-1-link'', ''/nix/store/a''), (''/p'', ''/p-1-link''),
       (''/p-2-link'', ''/nix/store/b'')] (makeName ''/p'' 2) = Some ''/nix/store/b''
   \<and> readLink [(''/p-1-link'', ''/nix/store/a''), (''/p'', ''/p-1-link''),
       (''/p-2-link'', ''/nix/store/b'')] ''/p'' = Some (makeName ''/p'' 1)
   \<and> resolveProfile (interrupted (switchLinkOps ''/p'' (makeName ''/p'' 2)) 1
        [(''/p-1-link'', ''/nix/store/a''), (''/p'', ''/p-1-link''),
         (''/p-2-link'', ''/nix/store/b'')]) ''/p'' = Some ''/nix/store/a''
   \<and> fst (switchLink ''/p'' (makeName ''/p'' 2)
        [(''/p-1-link'', ''/nix/store/a''), (''/p'', ''/p-1-link''),
         (''/p-2-link'', ''/nix/store/b'')]) = None
   \<and> resolveProfile (snd (switchLink ''/p'' (makeName ''/p'' 2)
        [(''/p-1-link'', ''/nix/store/a''), (''/p'', ''/p-1-link''),
         (''/p-2-link'', ''/nix/store/b'')])) ''/p'' = Some ''/nix/store/b''
   \<and> profile exampleState = Some ''p''
   \<and> fst (updateProfile ''a'' exampleState) = Inr ()
   \<and> resolveProfile (links (snd (updateProfile ''a'' exampleState))) ''/p''
       = Some ''/nix/store/a''"
proof -
  let ?ls = "[(''/p-1-link'', ''/nix/store/a''), (''/p'', ''/p-1-link''),
      (''/p-2-link'', ''/nix/store/b'')]"
  have two: "makeName ''/p'' 2 = ''/p-2-link''" and one: "makeName ''/p'' 1 = ''/p-1-link''"
    by (simp_all add: makeName_def showNat.simps digitChar_def digits_def)
  have gen: "readLink ?ls (makeName ''/p'' 2) = Some ''/nix/store/b''"
    by (simp add: two readLink_def)
  have cur: "readLink ?ls ''/p'' = Some (makeName ''/p'' 1)"
    by (simp only: one) (simp add: readLink_def)
  then have inv: "readLink ?ls ''/p'' = None \<or> (\<exists>m. readLink ?ls ''/p'' = Some (makeName ''/p'' m))"
    by blast
  have free: "readLink ?ls (tmpLink ''/p'') = None"
    by (simp add: readLink_def tmpLink_def)
  have mid: "resolveProfile (interrupted (switchLinkOps ''/p'' (makeName ''/p'' 2)) 1 ?ls) ''/p''
      = Some ''/nix/store/a''"
    by (simp add: two interrupted_def switchLinkOps_def tmpLink_def resolveProfile_def
        readLink_def)
  note inst = switchLink_old_or_new [OF gen inv]
  from inst free have ok: "fst (switchLink ''/p'' (makeName ''/p'' 2) ?ls) = None"
    by blast
  then have "switchLink ''/p'' (makeName ''/p'' 2) ?ls
      = (None, snd (switchLink ''/p'' (makeName ''/p'' 2) ?ls))"
    by (metis prod.collapse)
  with inst have "resolveProfile (snd (switchLink ''/p'' (makeName ''/p'' 2) ?ls)) ''/p''
      = Some ''/nix/store/b''"
    by blast
  moreover have set: "profile exampleState = Some ''p''"
    by (simp add: exampleState_def)
  moreover have run: "fst (updateProfile ''a'' exampleState) = Inr ()"
    by (simp add: update_defs exampleState_def exampleStore_def showNat.simps)
  moreover have "resolveProfile (links (snd (updateProfile ''a'' exampleState))) ''/p''
      = Some ''/nix/store/a''"
  proof -
    from run have "updateProfile ''a'' exampleState = (Inr (), snd (updateProfile ''a'' exampleState))"
      by (metis prod.collapse)
    with inst set
    have "resolveProfile (links (snd (updateProfile ''a'' exampleState)))
        (absPath exampleState ''p'')
      = Some (printStorePath (fst (getStore exampleState)) ''a'')"
      by blast
    then show ?thesis
      by (simp add: exampleState_def exampleStore_def getStore_def createStore_def)
  qed
  ultimately show ?thesis
    using gen cur mid ok by blast
qed


end
